theory Spec2Isabelle
  imports Complex_Main
begin

section \<open>Values shared by the scene and the view\<close>

text \<open>
  Python floats are modelled as exact reals: rounding, infinities and NaN are outside
  this development. A \<^verbatim>\<open>QPointF\<close> is a pair of reals, a \<^verbatim>\<open>QColor\<close> its four
  channels (red, green, blue, alpha). The exceptions the modelled code can raise are
  values of \<open>error\<close>; a function that can raise returns \<open>error + 'a\<close>.
\<close>

type_synonym point = "real \<times> real"

type_synonym qcolor = "nat \<times> nat \<times> nat \<times> nat"

datatype error = ZeroDivisionError | NameError string

section \<open>Drawables (scene/drawable.py)\<close>

text \<open>
  The attributes set by \<^verbatim>\<open>Drawable.__init__\<close>. \<open>ident\<close> is the identity of the
  Python object: no class defines \<^verbatim>\<open>__eq__\<close>, so \<^verbatim>\<open>==\<close>, \<^verbatim>\<open>in\<close> and
  \<^verbatim>\<open>list.remove\<close> compare identities. An object is modelled by its identity
  together with its current attribute values; two references to one object always show
  the same values, so equal values are one object. The coordinates \<^verbatim>\<open>x\<close> and
  \<^verbatim>\<open>y\<close> are named \<open>item_x\<close> and \<open>item_y\<close> here.
\<close>

record base =
  ident :: nat
  item_x :: real
  item_y :: real
  z_index :: int
  visible :: bool
  locked :: bool

text \<open>
  The four concrete classes. \<open>Rectangle\<close> and \<open>Ellipse\<close> carry width, height, color
  and border color; \<open>Text\<close> its text, font size and color; \<open>WidgetWrapper\<close> the width
  and height measured from the wrapped widget (it has no \<^verbatim>\<open>color\<close> attribute).
  \<^verbatim>\<open>Drawable\<close> itself is abstract and cannot be instantiated.
\<close>

datatype drawable =
    Rectangle base real real qcolor qcolor
  | Ellipse base real real qcolor qcolor
  | Text base string nat qcolor
  | WidgetWrapper base real real

fun common :: "drawable \<Rightarrow> base" where
  "common (Rectangle b w h c bc) = b"
| "common (Ellipse b w h c bc) = b"
| "common (Text b s n c) = b"
| "common (WidgetWrapper b w h) = b"

definition z_of :: "drawable \<Rightarrow> int" where
  "z_of d = z_index (common d)"

text \<open>\<^verbatim>\<open>hasattr(item, 'color')\<close> and \<^verbatim>\<open>item.color\<close>.\<close>

fun color_attr :: "drawable \<Rightarrow> qcolor option" where
  "color_attr (Rectangle b w h c bc) = Some c"
| "color_attr (Ellipse b w h c bc) = Some c"
| "color_attr (Text b s n c) = Some c"
| "color_attr (WidgetWrapper b w h) = None"

text \<open>
  \<^verbatim>\<open>contains_point\<close>, one equation per overriding class. The chained comparison
  \<^verbatim>\<open>a <= p <= b\<close> is a conjunction. In \<^verbatim>\<open>Ellipse.contains_point\<close> the two
  divisions are evaluated left to right and Python raises \<^verbatim>\<open>ZeroDivisionError\<close> when
  a divisor is zero.
\<close>

fun contains_point :: "drawable \<Rightarrow> point \<Rightarrow> error + bool" where
  "contains_point (Rectangle b w h c bc) p =
     Inr (item_x b \<le> fst p \<and> fst p \<le> item_x b + w \<and>
          item_y b \<le> snd p \<and> snd p \<le> item_y b + h)"
| "contains_point (Ellipse b w h c bc) p =
     (let centered_x = fst p - (item_x b + w / 2);
          centered_y = snd p - (item_y b + h / 2);
          a = w / 2;
          b' = h / 2
      in if a\<^sup>2 = 0 then Inl ZeroDivisionError
         else if b'\<^sup>2 = 0 then Inl ZeroDivisionError
         else Inr (centered_x\<^sup>2 / a\<^sup>2 + centered_y\<^sup>2 / b'\<^sup>2 \<le> 1))"
| "contains_point (Text b s n c) p =
     Inr (item_x b \<le> fst p \<and> fst p \<le> item_x b + 100 \<and>
          item_y b \<le> snd p \<and> snd p \<le> item_y b + 20)"
| "contains_point (WidgetWrapper b w h) p =
     Inr (item_x b \<le> fst p \<and> fst p \<le> item_x b + w \<and>
          item_y b \<le> snd p \<and> snd p \<le> item_y b + h)"

section \<open>The scene registry (scene/manager.py)\<close>

datatype signal = items_changed | scene_changed

text \<open>
  \<open>items\<close> is \<^verbatim>\<open>_items\<close>, \<open>items_changed_flag\<close> is \<^verbatim>\<open>_items_changed\<close>, and
  \<open>emitted\<close> lists the signals emitted so far, oldest first.
\<close>

record scene_manager =
  items :: "drawable list"
  items_changed_flag :: bool
  emitted :: "signal list"

definition SceneManager_init :: scene_manager where
  "SceneManager_init = \<lparr>items = [], items_changed_flag = False, emitted = []\<rparr>"

text \<open>
  Python's \<^verbatim>\<open>sorted\<close> and \<^verbatim>\<open>list.sort\<close> are stable. A stable sort by a key has
  exactly one result for each input, so the stable insertion sort \<open>sort_key\<close> computes
  the same list.
\<close>

definition get_items :: "scene_manager \<Rightarrow> drawable list" where
  "get_items m = sort_key z_of (items m)"

definition add_item :: "scene_manager \<Rightarrow> drawable \<Rightarrow> scene_manager" where
  "add_item m d =
     m\<lparr>items := sort_key z_of (items m @ [d]),
       items_changed_flag := True,
       emitted := emitted m @ [items_changed, scene_changed]\<rparr>"

definition remove_item :: "scene_manager \<Rightarrow> drawable \<Rightarrow> scene_manager" where
  "remove_item m d =
     (if d \<in> set (items m)
      then m\<lparr>items := remove1 d (items m),
             items_changed_flag := True,
             emitted := emitted m @ [items_changed, scene_changed]\<rparr>
      else m)"

definition clear_items :: "scene_manager \<Rightarrow> scene_manager" where
  "clear_items m =
     m\<lparr>items := [],
       items_changed_flag := True,
       emitted := emitted m @ [items_changed, scene_changed]\<rparr>"

text \<open>
  The loop of \<^verbatim>\<open>get_item_at_position\<close> over an already reversed list: an invisible
  or locked item is skipped without calling \<^verbatim>\<open>contains_point\<close>; an exception raised
  by \<^verbatim>\<open>contains_point\<close> leaves the loop and the method. Every drawable has the
  attributes and methods that the \<^verbatim>\<open>hasattr\<close> tests of this loop, and of the two
  loops of view.py, ask for, so these tests are true.
\<close>

fun item_at_loop :: "drawable list \<Rightarrow> point \<Rightarrow> error + drawable option" where
  "item_at_loop [] pos = Inr None"
| "item_at_loop (d # ds) pos =
     (if visible (common d) \<and> \<not> locked (common d)
      then (case contains_point d pos of
              Inl e \<Rightarrow> Inl e
            | Inr hit \<Rightarrow> if hit then Inr (Some d) else item_at_loop ds pos)
      else item_at_loop ds pos)"

definition get_item_at_position :: "scene_manager \<Rightarrow> point \<Rightarrow> error + drawable option" where
  "get_item_at_position m pos = item_at_loop (rev (items m)) pos"

text \<open>
  A registry is used through its three mutating methods. \<open>run_ops\<close> applies a
  sequence of calls to a registry.
\<close>

datatype scene_op = Add drawable | Remove drawable | Clear

fun apply_op :: "scene_manager \<Rightarrow> scene_op \<Rightarrow> scene_manager" where
  "apply_op m (Add d) = add_item m d"
| "apply_op m (Remove d) = remove_item m d"
| "apply_op m Clear = clear_items m"

definition run_ops :: "scene_op list \<Rightarrow> scene_manager" where
  "run_ops ops = foldl apply_op SceneManager_init ops"

text \<open>
  The order of insertion, for stating stability: the items a sequence of calls leaves
  in the registry, each at the place of its insertion. A removal takes the oldest
  occurrence of the object.
\<close>

fun insertion_step :: "drawable list \<Rightarrow> scene_op \<Rightarrow> drawable list" where
  "insertion_step xs (Add d) = xs @ [d]"
| "insertion_step xs (Remove d) = remove1 d xs"
| "insertion_step xs Clear = []"

definition insertion_order :: "scene_op list \<Rightarrow> drawable list" where
  "insertion_order ops = foldl insertion_step [] ops"

text \<open>
  The attributes of a drawable are public. The assignment \<^verbatim>\<open>item.z_index = z\<close> by
  the application, to the object of identity \<open>i\<close>, is seen by a registry that holds the
  object: its list holds references, so every occurrence changes, and no method of the
  registry runs.
\<close>

fun map_common :: "(base \<Rightarrow> base) \<Rightarrow> drawable \<Rightarrow> drawable" where
  "map_common f (Rectangle b w h c bc) = Rectangle (f b) w h c bc"
| "map_common f (Ellipse b w h c bc) = Ellipse (f b) w h c bc"
| "map_common f (Text b s n c) = Text (f b) s n c"
| "map_common f (WidgetWrapper b w h) = WidgetWrapper (f b) w h"

definition assign_z_index :: "scene_manager \<Rightarrow> nat \<Rightarrow> int \<Rightarrow> scene_manager" where
  "assign_z_index m i z =
     m\<lparr>items := map (\<lambda>d. if ident (common d) = i
                             then map_common (\<lambda>b. b\<lparr>z_index := z\<rparr>) d else d)
                     (items m)\<rparr>"

section \<open>The camera view (scene/view.py)\<close>

text \<open>
  The dictionary emitted through \<^verbatim>\<open>status_updated\<close>; \<open>status_zoom\<close> is its key
  \<^verbatim>\<open>"zoom"\<close>.
\<close>

record status_data =
  screen_pos :: point
  scene_pos :: point
  color :: qcolor
  status_zoom :: real

text \<open>
  The attributes of \<^verbatim>\<open>SceneView\<close>, without their leading underscore; \<open>scene\<close> is
  \<^verbatim>\<open>_scene_manager\<close>. \<open>width\<close> and \<open>height\<close> are what the widget's
  \<^verbatim>\<open>width()\<close> and \<^verbatim>\<open>height()\<close> return. What the view sends out is logged, oldest
  first: \<open>update_count\<close> counts the calls of \<^verbatim>\<open>update()\<close>, \<open>status_log\<close> lists
  the emissions of \<^verbatim>\<open>status_updated\<close>, \<open>clicked_log\<close> the calls of
  \<^verbatim>\<open>on_clicked\<close> (a method that does nothing in every class of drawable.py).
\<close>

record scene_view =
  position :: point
  zoom :: real
  is_panning :: bool
  pan_start_pos :: point
  camera_start_pos :: point
  last_mouse_pos :: point
  scope_visible :: bool
  scene :: scene_manager
  width :: int
  height :: int
  update_count :: nat
  status_log :: "status_data list"
  clicked_log :: "(drawable \<times> point) list"

text \<open>\<^verbatim>\<open>_min_zoom\<close> and \<^verbatim>\<open>_max_zoom\<close> are set once in \<^verbatim>\<open>__init__\<close>.\<close>

definition min_zoom :: real where
  "min_zoom = 0.01"

definition max_zoom :: real where
  "max_zoom = 100.0"

definition SceneView_init :: "scene_manager \<Rightarrow> int \<Rightarrow> int \<Rightarrow> scene_view" where
  "SceneView_init sm w h =
     \<lparr>position = (0, 0), zoom = 1, is_panning = False, pan_start_pos = (0, 0),
      camera_start_pos = (0, 0), last_mouse_pos = (0, 0), scope_visible = True,
      scene = sm, width = w, height = h, update_count = 0, status_log = [],
      clicked_log = []\<rparr>"

text \<open>
  The names bound at module level in view.py (its imports and its class). The
  statement \<^verbatim>\<open>from PyQt6.QtWidgets import QApplication\<close> stands inside
  \<^verbatim>\<open>mousePressEvent\<close> only, where it binds a local name. A name that is neither
  local nor bound here (nor a builtin) raises \<^verbatim>\<open>NameError\<close> when it is evaluated.
\<close>

definition module_globals :: "string list" where
  "module_globals =
     [''QWidget'', ''pyqtSignal'', ''QPointF'', ''Qt'', ''QRect'', ''QPainter'',
      ''QCursor'', ''QMouseEvent'', ''QWheelEvent'', ''QRadialGradient'', ''QColor'',
      ''QKeyEvent'', ''List'', ''Drawable'', ''SceneManager'', ''SceneView'']"

definition global_name :: "string \<Rightarrow> error + unit" where
  "global_name n = (if n \<in> set module_globals then Inr () else Inl (NameError n))"

subsection \<open>Coordinate transforms\<close>

text \<open>The divisions by \<^verbatim>\<open>zoom_level\<close> raise when it is zero.\<close>

definition screen_to_scene_with_zoom :: "scene_view \<Rightarrow> point \<Rightarrow> real \<Rightarrow> error + point" where
  "screen_to_scene_with_zoom v screen_p zoom_lvl =
     (let widget_center_x = real_of_int (width v) / 2;
          widget_center_y = real_of_int (height v) / 2;
          rel_x = fst screen_p - widget_center_x;
          rel_y = snd screen_p - widget_center_y
      in if zoom_lvl = 0 then Inl ZeroDivisionError
         else Inr (fst (position v) + rel_x / zoom_lvl,
                   snd (position v) + rel_y / zoom_lvl))"

definition screen_to_scene :: "scene_view \<Rightarrow> point \<Rightarrow> error + point" where
  "screen_to_scene v screen_p = screen_to_scene_with_zoom v screen_p (zoom v)"

definition scene_to_screen :: "scene_view \<Rightarrow> point \<Rightarrow> point" where
  "scene_to_screen v scene_p =
     (let widget_center_x = real_of_int (width v) / 2;
          widget_center_y = real_of_int (height v) / 2
      in ((fst scene_p - fst (position v)) * zoom v + widget_center_x,
          (snd scene_p - snd (position v)) * zoom v + widget_center_y))"

subsection \<open>Zoom\<close>

text \<open>
  A handler returns the view as the call leaves it together with the exception that
  ended it, if any. \<^verbatim>\<open>_zoom_to_cursor\<close> has changed nothing when its first
  conversion raises, and has stored the new zoom when the second one would.
\<close>

definition zoom_to_cursor :: "scene_view \<Rightarrow> point \<Rightarrow> real \<Rightarrow> scene_view \<times> error option" where
  "zoom_to_cursor v cursor_pos zoom_factor =
     (let old_position = position v in
      case screen_to_scene v cursor_pos of
        Inl e \<Rightarrow> (v, Some e)
      | Inr scene_pos_before \<Rightarrow>
          (let new_zoom = max min_zoom (min max_zoom (zoom v * zoom_factor));
               v1 = v\<lparr>zoom := new_zoom\<rparr>
           in case screen_to_scene_with_zoom v1 cursor_pos (zoom v1) of
                Inl e \<Rightarrow> (v1, Some e)
              | Inr scene_pos_after \<Rightarrow>
                  (let delta_x = fst scene_pos_after - fst scene_pos_before;
                       delta_y = snd scene_pos_after - snd scene_pos_before
                   in (v1\<lparr>position := (fst old_position - delta_x,
                                        snd old_position - delta_y)\<rparr>, None))))"

subsection \<open>Status emission\<close>

text \<open>
  The loop of \<^verbatim>\<open>_emit_status\<close> over the reversed result of \<^verbatim>\<open>get_items()\<close>:
  it stops at the first visible unlocked item containing the point and takes that
  item's color when it has one.
\<close>

fun sample_color_loop :: "drawable list \<Rightarrow> point \<Rightarrow> qcolor \<Rightarrow> error + qcolor" where
  "sample_color_loop [] pos dflt = Inr dflt"
| "sample_color_loop (d # ds) pos dflt =
     (if visible (common d) \<and> \<not> locked (common d)
      then (case contains_point d pos of
              Inl e \<Rightarrow> Inl e
            | Inr hit \<Rightarrow>
                if hit then Inr (case color_attr d of Some c \<Rightarrow> c | None \<Rightarrow> dflt)
                else sample_color_loop ds pos dflt)
      else sample_color_loop ds pos dflt)"

definition emit_status :: "scene_view \<Rightarrow> scene_view \<times> error option" where
  "emit_status v =
     (case screen_to_scene v (last_mouse_pos v) of
        Inl e \<Rightarrow> (v, Some e)
      | Inr sp \<Rightarrow>
          (case sample_color_loop (rev (get_items (scene v))) sp (100, 100, 100, 255) of
             Inl e \<Rightarrow> (v, Some e)
           | Inr c \<Rightarrow>
               (v\<lparr>status_log := status_log v @
                     [\<lparr>screen_pos = last_mouse_pos v, scene_pos = sp, color = c,
                       status_zoom = zoom v\<rparr>]\<rparr>, None)))"

definition set_zoom_level :: "scene_view \<Rightarrow> real \<Rightarrow> scene_view \<times> error option" where
  "set_zoom_level v level =
     emit_status (v\<lparr>zoom := max min_zoom (min max_zoom level),
                    update_count := Suc (update_count v)\<rparr>)"

subsection \<open>Mouse events\<close>

datatype mouse_button = LeftButton | MiddleButton | RightButton | OtherButton

text \<open>
  The inline search of \<^verbatim>\<open>mousePressEvent\<close> over the reversed result of
  \<^verbatim>\<open>get_items()\<close>; it yields the item whose \<^verbatim>\<open>on_clicked\<close> is called.
\<close>

fun clicked_loop :: "drawable list \<Rightarrow> point \<Rightarrow> error + drawable option" where
  "clicked_loop [] pos = Inr None"
| "clicked_loop (d # ds) pos =
     (if visible (common d) \<and> \<not> locked (common d)
      then (case contains_point d pos of
              Inl e \<Rightarrow> Inl e
            | Inr hit \<Rightarrow> if hit then Inr (Some d) else clicked_loop ds pos)
      else clicked_loop ds pos)"

text \<open>
  \<open>alt\<close> tells whether \<^verbatim>\<open>QApplication.keyboardModifiers()\<close> holds the Alt modifier
  when the event arrives.
\<close>

definition mousePressEvent ::
  "scene_view \<Rightarrow> mouse_button \<Rightarrow> point \<Rightarrow> bool \<Rightarrow> scene_view \<times> error option" where
  "mousePressEvent v button pos alt =
     (let left_button = (button = LeftButton);
          middle_button = (button = MiddleButton)
      in if middle_button \<or> (left_button \<and> alt)
         then (v\<lparr>pan_start_pos := pos, camera_start_pos := position v,
                 is_panning := True, last_mouse_pos := pos\<rparr>, None)
         else (case screen_to_scene v pos of
                 Inl e \<Rightarrow> (v, Some e)
               | Inr sp \<Rightarrow>
                   (case clicked_loop (rev (get_items (scene v))) sp of
                      Inl e \<Rightarrow> (v, Some e)
                    | Inr None \<Rightarrow> (v\<lparr>last_mouse_pos := pos\<rparr>, None)
                    | Inr (Some d) \<Rightarrow>
                        (v\<lparr>clicked_log := clicked_log v @ [(d, sp)],
                           last_mouse_pos := pos\<rparr>, None))))"

definition mouseMoveEvent :: "scene_view \<Rightarrow> point \<Rightarrow> scene_view \<times> error option" where
  "mouseMoveEvent v mouse_pos =
     (let v1 = v\<lparr>last_mouse_pos := mouse_pos\<rparr> in
      if is_panning v1
      then (let screen_delta = (fst mouse_pos - fst (pan_start_pos v1),
                                snd mouse_pos - snd (pan_start_pos v1))
            in if zoom v1 = 0 then (v1, Some ZeroDivisionError)
               else (let scene_delta = (- fst screen_delta / zoom v1,
                                        - snd screen_delta / zoom v1);
                         new_pos = (fst (camera_start_pos v1) + fst scene_delta,
                                    snd (camera_start_pos v1) + snd scene_delta)
                     in emit_status (v1\<lparr>position := new_pos,
                                         update_count := Suc (update_count v1)\<rparr>)))
      else emit_status (v1\<lparr>update_count := Suc (update_count v1)\<rparr>))"

text \<open>
  The condition of \<^verbatim>\<open>mouseReleaseEvent\<close>, with Python's short-circuit order:
  \<^verbatim>\<open>QApplication\<close> is looked up only for a left button while panning.
\<close>

definition release_condition :: "scene_view \<Rightarrow> mouse_button \<Rightarrow> bool \<Rightarrow> error + bool" where
  "release_condition v button alt =
     (if button = MiddleButton then Inr True
      else if button = LeftButton
      then (if is_panning v
            then (case global_name ''QApplication'' of
                    Inl e \<Rightarrow> Inl e
                  | Inr u \<Rightarrow> Inr alt)
            else Inr False)
      else Inr False)"

definition mouseReleaseEvent ::
  "scene_view \<Rightarrow> mouse_button \<Rightarrow> bool \<Rightarrow> scene_view \<times> error option" where
  "mouseReleaseEvent v button alt =
     (case release_condition v button alt of
        Inl e \<Rightarrow> (v, Some e)
      | Inr ends \<Rightarrow>
          if ends
          then (v\<lparr>is_panning := False, pan_start_pos := (0, 0),
                  camera_start_pos := (0, 0)\<rparr>, None)
          else (v, None))"

text \<open>\<open>delta_y\<close> is \<^verbatim>\<open>event.angleDelta().y()\<close>.\<close>

definition wheelEvent :: "scene_view \<Rightarrow> point \<Rightarrow> int \<Rightarrow> scene_view \<times> error option" where
  "wheelEvent v mouse_pos delta_y =
     (if delta_y > 0 then zoom_to_cursor v mouse_pos 1.25
      else zoom_to_cursor v mouse_pos (1 / 1.25))"

subsection \<open>Keyboard events\<close>

datatype key =
    Key_Left | Key_Right | Key_Up | Key_Down | Key_Plus | Key_Equal | Key_Minus
  | Key_0 | Key_Home | Key_H | Key_Other

definition zoom_anchor :: "scene_view \<Rightarrow> point" where
  "zoom_anchor v =
     (if last_mouse_pos v \<noteq> (0, 0) then last_mouse_pos v
      else (real_of_int (width v) / 2, real_of_int (height v) / 2))"

definition reset_zoom :: "scene_view \<Rightarrow> scene_view \<times> error option" where
  "reset_zoom v =
     (let center_pos = (real_of_int (width v) / 2, real_of_int (height v) / 2)
      in if zoom v = 0 then (v, Some ZeroDivisionError)
         else zoom_to_cursor v center_pos (1 / zoom v))"

definition center_on :: "scene_view \<Rightarrow> point \<Rightarrow> scene_view" where
  "center_on v scene_p = v\<lparr>position := (fst scene_p, snd scene_p)\<rparr>"

text \<open>The branch of \<^verbatim>\<open>keyPressEvent\<close> for the key, before the status is emitted.\<close>

definition key_action :: "scene_view \<Rightarrow> key \<Rightarrow> real \<Rightarrow> scene_view \<times> error option" where
  "key_action v k step_size =
     (case k of
        Key_Left \<Rightarrow> (v\<lparr>position := (fst (position v) - step_size, snd (position v))\<rparr>, None)
      | Key_Right \<Rightarrow> (v\<lparr>position := (fst (position v) + step_size, snd (position v))\<rparr>, None)
      | Key_Up \<Rightarrow> (v\<lparr>position := (fst (position v), snd (position v) - step_size)\<rparr>, None)
      | Key_Down \<Rightarrow> (v\<lparr>position := (fst (position v), snd (position v) + step_size)\<rparr>, None)
      | Key_Plus \<Rightarrow> zoom_to_cursor v (zoom_anchor v) 1.25
      | Key_Equal \<Rightarrow> zoom_to_cursor v (zoom_anchor v) 1.25
      | Key_Minus \<Rightarrow> zoom_to_cursor v (zoom_anchor v) (1 / 1.25)
      | Key_0 \<Rightarrow> reset_zoom v
      | Key_Home \<Rightarrow> (center_on v (0, 0), None)
      | Key_H \<Rightarrow> (center_on v (0, 0), None)
      | Key_Other \<Rightarrow> (v, None))"

definition keyPressEvent :: "scene_view \<Rightarrow> key \<Rightarrow> scene_view \<times> error option" where
  "keyPressEvent v k =
     (if zoom v < 1 \<and> zoom v = 0 then (v, Some ZeroDivisionError)
      else (let step_size = (if zoom v < 1 then 20 / zoom v else 20 * zoom v) in
            case key_action v k step_size of
              (v1, Some e) \<Rightarrow> (v1, Some e)
            | (v1, None) \<Rightarrow> emit_status v1))"

section \<open>Objects used in examples\<close>


definition flat_ellipse :: drawable where
  "flat_ellipse =
     Ellipse \<lparr>ident = 0, item_x = 0, item_y = 0, z_index = 0, visible = True, locked = False\<rparr>
       0 50 (200, 100, 150, 150) (200, 200, 200, 255)"

text \<open>A freshly constructed view of 400 by 300 pixels on an empty scene.\<close>

definition fresh_view :: scene_view where
  "fresh_view = SceneView_init SceneManager_init 400 300"

text \<open>
  \<^verbatim>\<open>Rectangle(z_index=z)\<close> with the default position, size and colors, as the
  object of identity \<open>i\<close>.
\<close>

definition box :: "nat \<Rightarrow> int \<Rightarrow> drawable" where
  "box i z =
     Rectangle \<lparr>ident = i, item_x = 0, item_y = 0, z_index = z, visible = True, locked = False\<rparr>
       100 100 (100, 150, 200, 150) (200, 200, 200, 255)"

text \<open>
  The scene of the spec's scenario: \<^verbatim>\<open>Rectangle(x=100, y=100, width=200,
  height=100, z_index=0)\<close> and \<^verbatim>\<open>Ellipse(x=350, y=150, width=150, height=150,
  z_index=1)\<close>, shown by a fresh view of 400 by 300 pixels.
\<close>

definition demo_rect :: drawable where
  "demo_rect =
     Rectangle \<lparr>ident = 1, item_x = 100, item_y = 100, z_index = 0, visible = True, locked = False\<rparr>
       200 100 (100, 150, 200, 150) (200, 200, 200, 255)"

definition demo_ellipse :: drawable where
  "demo_ellipse =
     Ellipse \<lparr>ident = 2, item_x = 350, item_y = 150, z_index = 1, visible = True, locked = False\<rparr>
       150 150 (200, 100, 150, 150) (200, 200, 200, 255)"

definition demo_view :: scene_view where
  "demo_view = SceneView_init (run_ops [Add demo_rect, Add demo_ellipse]) 400 300"

text \<open>
  Two overlapping rectangles, added with z-indices 0 and 1; afterwards the application
  assigns 5 to the \<^verbatim>\<open>z_index\<close> of the first. \<open>restacked_view\<close> is a fresh view of
  400 by 300 pixels on that registry.
\<close>

definition restacked :: scene_manager where
  "restacked = assign_z_index (run_ops [Add (box 1 0), Add (box 2 1)]) 1 5"

definition restacked_view :: scene_view where
  "restacked_view = SceneView_init restacked 400 300"

section \<open>Notions used in the statements\<close>

text \<open>
  An item answers a hit test at a point when it is visible, unlocked and its
  \<^verbatim>\<open>contains_point\<close> returns true there.
\<close>

definition hit :: "point \<Rightarrow> drawable \<Rightarrow> bool" where
  "hit p d \<longleftrightarrow> visible (common d) \<and> \<not> locked (common d) \<and> contains_point d p = Inr True"

text \<open>
  A sequence of pointer moves delivered to \<^verbatim>\<open>mouseMoveEvent\<close>, one after the
  other; each handler starts from the view as the previous one left it.
\<close>

fun pointer_moves :: "scene_view \<Rightarrow> point list \<Rightarrow> scene_view" where
  "pointer_moves v [] = v"
| "pointer_moves v (m # ms) = pointer_moves (fst (mouseMoveEvent v m)) ms"

section \<open>Containment in an ellipse\<close>



section \<open>Totality of containment\<close>

text \<open>The three box tests never raise.\<close>

lemma box_contains_point_total:
  "\<exists>r. contains_point (Rectangle b w h c bc) p = Inr r"
  "\<exists>r. contains_point (Text b s n c) p = Inr r"
  "\<exists>r. contains_point (WidgetWrapper b w h) p = Inr r"
  by simp_all

text \<open>
  Claim C7: the data-model invariant allows a width of 0. For the ellipse at (0,0)
  with width 0 and height 50 and the point (0,0), \<^verbatim>\<open>Ellipse.contains_point\<close> raises
  \<^verbatim>\<open>ZeroDivisionError\<close> instead of returning a boolean.
\<close>

theorem ellipse_contains_point_zero_width_raises:
  "contains_point flat_ellipse (0, 0) = Inl ZeroDivisionError"
  by (simp add: flat_ellipse_def Let_def)

section \<open>Coordinate transforms\<close>

lemma zoom_in_range_nonzero: "min_zoom \<le> z \<Longrightarrow> z \<noteq> 0"
  by (simp add: min_zoom_def)

lemma clamped_zoom_nonzero: "max min_zoom (min max_zoom z) \<noteq> 0"
  by (simp add: min_zoom_def max_zoom_def max_def min_def)

lemma fresh_view_zoom_in_range:
  "min_zoom \<le> zoom fresh_view" "zoom fresh_view \<le> max_zoom"
  by (simp_all add: fresh_view_def SceneView_init_def min_zoom_def max_zoom_def)

text \<open>
  Claim C2: for every camera position, every viewport size and every zoom in
  [0.01, 100], \<^verbatim>\<open>_screen_to_scene\<close> returns a scene point that
  \<^verbatim>\<open>_scene_to_screen\<close> maps back to the screen point it came from, and
  \<^verbatim>\<open>_screen_to_scene\<close> maps the screen point of any scene point back to that scene
  point, in exact arithmetic.
\<close>

theorem screen_scene_inverse:
  assumes "min_zoom \<le> zoom v" and "zoom v \<le> max_zoom"
  shows "(\<exists>q. screen_to_scene v p = Inr q \<and> scene_to_screen v q = p) \<and>
         screen_to_scene v (scene_to_screen v q) = Inr q"
proof -
  have z: "zoom v \<noteq> 0"
    using assms(1) by (rule zoom_in_range_nonzero)
  have "scene_to_screen v (fst (position v) + (fst p - real_of_int (width v) / 2) / zoom v,
                           snd (position v) + (snd p - real_of_int (height v) / 2) / zoom v) = p"
    using z by (simp add: scene_to_screen_def Let_def prod_eq_iff)
  moreover have "screen_to_scene v (scene_to_screen v q) = Inr q"
    using z
    by (simp add: screen_to_scene_def screen_to_scene_with_zoom_def scene_to_screen_def Let_def)
  ultimately show ?thesis
    using z by (simp add: screen_to_scene_def screen_to_scene_with_zoom_def Let_def)
qed

theorem screen_scene_inverse_witness:
  "min_zoom \<le> zoom fresh_view \<and> zoom fresh_view \<le> max_zoom \<and>
   (\<exists>q. screen_to_scene fresh_view (300, 200) = Inr q \<and>
        scene_to_screen fresh_view q = (300, 200)) \<and>
   screen_to_scene fresh_view (scene_to_screen fresh_view (100, 50)) = Inr (100, 50)"
  using fresh_view_zoom_in_range
    screen_scene_inverse [OF fresh_view_zoom_in_range, of "(300, 200)" "(100, 50)"]
  by blast

section \<open>Zoom to cursor\<close>

text \<open>
  Claim C1: for every camera position, every zoom in [0.01, 100], every cursor screen
  point \<open>S\<close> and every positive factor, \<^verbatim>\<open>_zoom_to_cursor(S, factor)\<close> completes,
  stores the clamped zoom, and \<^verbatim>\<open>_screen_to_scene(S)\<close> computed with the new camera
  position and the new zoom is the scene point it was before the call.
\<close>

theorem zoom_to_cursor_keeps_scene_point:
  assumes "min_zoom \<le> zoom v" and "zoom v \<le> max_zoom" and "0 < zoom_factor"
  shows "\<exists>v' p. zoom_to_cursor v S zoom_factor = (v', None) \<and>
           zoom v' = max min_zoom (min max_zoom (zoom v * zoom_factor)) \<and>
           min_zoom \<le> zoom v' \<and> zoom v' \<le> max_zoom \<and>
           screen_to_scene v S = Inr p \<and> screen_to_scene v' S = Inr p"
proof -
  define z' where "z' = max min_zoom (min max_zoom (zoom v * zoom_factor))"
  have z: "zoom v \<noteq> 0"
    using assms(1) by (rule zoom_in_range_nonzero)
  have z': "z' \<noteq> 0"
    unfolding z'_def by (rule clamped_zoom_nonzero)
  have range: "min_zoom \<le> z'" "z' \<le> max_zoom"
    unfolding z'_def by (simp_all add: min_zoom_def max_zoom_def)
  show ?thesis
    using z z' range unfolding z'_def
    by (simp add: zoom_to_cursor_def screen_to_scene_def screen_to_scene_with_zoom_def Let_def)
qed

theorem zoom_to_cursor_keeps_scene_point_witness:
  "min_zoom \<le> zoom fresh_view \<and> zoom fresh_view \<le> max_zoom \<and> (0::real) < 1.25 \<and>
   (\<exists>v' p. zoom_to_cursor fresh_view (300, 200) 1.25 = (v', None) \<and>
           zoom v' = max min_zoom (min max_zoom (zoom fresh_view * 1.25)) \<and>
           min_zoom \<le> zoom v' \<and> zoom v' \<le> max_zoom \<and>
           screen_to_scene fresh_view (300, 200) = Inr p \<and>
           screen_to_scene v' (300, 200) = Inr p)"
proof -
  have f: "(0::real) < 1.25"
    by simp
  show ?thesis
    using fresh_view_zoom_in_range f
      zoom_to_cursor_keeps_scene_point [OF fresh_view_zoom_in_range f, of "(300, 200)"]
    by blast
qed

section \<open>Panning\<close>

text \<open>Emitting the status changes nothing of the camera.\<close>

lemma emit_status_camera:
  "position (fst (emit_status v)) = position v"
  "zoom (fst (emit_status v)) = zoom v"
  "is_panning (fst (emit_status v)) = is_panning v"
  "pan_start_pos (fst (emit_status v)) = pan_start_pos v"
  "camera_start_pos (fst (emit_status v)) = camera_start_pos v"
  "last_mouse_pos (fst (emit_status v)) = last_mouse_pos v"
  "width (fst (emit_status v)) = width v"
  "height (fst (emit_status v)) = height v"
  by (simp_all add: emit_status_def split: sum.split)

lemma mouseMoveEvent_panning:
  assumes "is_panning v" and "zoom v \<noteq> 0"
  shows "is_panning (fst (mouseMoveEvent v m))"
    and "zoom (fst (mouseMoveEvent v m)) = zoom v"
    and "pan_start_pos (fst (mouseMoveEvent v m)) = pan_start_pos v"
    and "camera_start_pos (fst (mouseMoveEvent v m)) = camera_start_pos v"
    and "width (fst (mouseMoveEvent v m)) = width v"
    and "height (fst (mouseMoveEvent v m)) = height v"
    and "position (fst (mouseMoveEvent v m)) =
           (fst (camera_start_pos v) + - (fst m - fst (pan_start_pos v)) / zoom v,
            snd (camera_start_pos v) + - (snd m - snd (pan_start_pos v)) / zoom v)"
  using assms by (simp_all add: mouseMoveEvent_def Let_def emit_status_camera field_simps)

lemma pointer_moves_panning:
  assumes "is_panning v" and "zoom v \<noteq> 0"
  shows "is_panning (pointer_moves v ms) \<and> zoom (pointer_moves v ms) = zoom v \<and>
         pan_start_pos (pointer_moves v ms) = pan_start_pos v \<and>
         camera_start_pos (pointer_moves v ms) = camera_start_pos v \<and>
         width (pointer_moves v ms) = width v \<and> height (pointer_moves v ms) = height v"
  using assms
proof (induction ms arbitrary: v)
  case Nil
  then show ?case by simp
next
  case (Cons m ms)
  let ?v1 = "fst (mouseMoveEvent v m)"
  have "is_panning ?v1" and "zoom ?v1 \<noteq> 0"
    using Cons.prems by (simp_all add: mouseMoveEvent_panning)
  from Cons.IH [OF this] show ?case
    using Cons.prems by (simp add: mouseMoveEvent_panning)
qed

lemma pointer_moves_append:
  "pointer_moves v (ms @ [m]) = fst (mouseMoveEvent (pointer_moves v ms) m)"
  by (induction ms arbitrary: v) simp_all

text \<open>
  Claim C10: a pan begins with a press of the middle button, or of the left button with
  Alt held, at screen point \<open>P0\<close>, in a view with camera position \<open>C0\<close> and a zoom in
  [0.01, 100]. After any pointer moves that follow, the last of them to screen point
  \<open>M\<close>, \<^verbatim>\<open>_screen_to_scene(M)\<close> computed with the updated camera position is the
  scene point \<^verbatim>\<open>_screen_to_scene(P0)\<close> computed with \<open>C0\<close> at the press.
\<close>

theorem pan_keeps_grabbed_point:
  assumes "min_zoom \<le> zoom v0" and "zoom v0 \<le> max_zoom"
    and "button = MiddleButton \<or> (button = LeftButton \<and> alt)"
  shows "\<exists>p. screen_to_scene
               (pointer_moves (fst (mousePressEvent v0 button P0 alt)) (ms @ [M])) M = Inr p \<and>
             screen_to_scene v0 P0 = Inr p"
proof -
  let ?v1 = "fst (mousePressEvent v0 button P0 alt)"
  let ?v2 = "pointer_moves ?v1 ms"
  let ?v3 = "fst (mouseMoveEvent ?v2 M)"
  have z: "zoom v0 \<noteq> 0"
    using assms(1) by (rule zoom_in_range_nonzero)
  have v1: "is_panning ?v1" "zoom ?v1 = zoom v0" "pan_start_pos ?v1 = P0"
    "camera_start_pos ?v1 = position v0" "width ?v1 = width v0" "height ?v1 = height v0"
    using assms(3) by (auto simp add: mousePressEvent_def Let_def)
  have v2: "is_panning ?v2" "zoom ?v2 = zoom v0" "pan_start_pos ?v2 = P0"
    "camera_start_pos ?v2 = position v0" "width ?v2 = width v0" "height ?v2 = height v0"
    using pointer_moves_panning [of ?v1 ms] v1 z by simp_all
  have v3: "zoom ?v3 = zoom v0" "width ?v3 = width v0" "height ?v3 = height v0"
    "position ?v3 = (fst (position v0) + - (fst M - fst P0) / zoom v0,
                     snd (position v0) + - (snd M - snd P0) / zoom v0)"
    using mouseMoveEvent_panning [of ?v2 M] v2 z by simp_all
  have "screen_to_scene ?v3 M = screen_to_scene v0 P0"
    using z v3
    by (simp add: screen_to_scene_def screen_to_scene_with_zoom_def Let_def field_simps)
  moreover have "\<exists>p. screen_to_scene v0 P0 = Inr p"
    using z by (simp add: screen_to_scene_def screen_to_scene_with_zoom_def Let_def)
  ultimately show ?thesis
    by (auto simp add: pointer_moves_append)
qed

theorem pan_keeps_grabbed_point_witness:
  "min_zoom \<le> zoom fresh_view \<and> zoom fresh_view \<le> max_zoom \<and>
   (MiddleButton = MiddleButton \<or> (MiddleButton = LeftButton \<and> False)) \<and>
   (\<exists>p. screen_to_scene
          (pointer_moves (fst (mousePressEvent fresh_view MiddleButton (100, 100) False))
             ([(120, 110)] @ [(150, 130)])) (150, 130) = Inr p \<and>
        screen_to_scene fresh_view (100, 100) = Inr p)"
proof -
  have b: "MiddleButton = MiddleButton \<or> (MiddleButton = LeftButton \<and> False)"
    by simp
  show ?thesis
    using fresh_view_zoom_in_range b
      pan_keeps_grabbed_point [OF fresh_view_zoom_in_range b,
        of "(100, 100)" "[(120, 110)]" "(150, 130)"]
    by blast
qed

section \<open>Z-order of the registry\<close>

lemma apply_op_sorted:
  "sorted (map z_of (items m)) \<Longrightarrow> sorted (map z_of (items (apply_op m op)))"
  by (cases op) (simp_all add: add_item_def remove_item_def clear_items_def sorted_map_remove1)

lemma foldl_apply_op_sorted:
  "sorted (map z_of (items m)) \<Longrightarrow> sorted (map z_of (items (foldl apply_op m ops)))"
  by (induction ops arbitrary: m) (simp_all add: apply_op_sorted)

lemma run_ops_sorted: "sorted (map z_of (items (run_ops ops)))"
  unfolding run_ops_def by (rule foldl_apply_op_sorted) (simp add: SceneManager_init_def)

text \<open>The stored list is already in the order \<^verbatim>\<open>get_items\<close> returns.\<close>

lemma get_items_run_ops: "get_items (run_ops ops) = items (run_ops ops)"
  unfolding get_items_def by (rule sort_key_id_if_sorted) (rule run_ops_sorted)

lemma same_classes_same_set:
  assumes "\<forall>k. filter (\<lambda>d. z_of d = k) xs = filter (\<lambda>d. z_of d = k) ys"
  shows "set xs = set ys"
proof -
  have "d \<in> set xs \<longleftrightarrow> d \<in> set ys" for d
  proof -
    have "d \<in> set xs \<longleftrightarrow> d \<in> set (filter (\<lambda>e. z_of e = z_of d) xs)"
      by simp
    also have "\<dots> \<longleftrightarrow> d \<in> set (filter (\<lambda>e. z_of e = z_of d) ys)"
      using assms by simp
    also have "\<dots> \<longleftrightarrow> d \<in> set ys"
      by simp
    finally show ?thesis .
  qed
  then show ?thesis by blast
qed

lemma apply_op_stable:
  assumes "\<forall>k. filter (\<lambda>d. z_of d = k) (items m) = filter (\<lambda>d. z_of d = k) xs"
  shows "filter (\<lambda>d. z_of d = k) (items (apply_op m op)) =
         filter (\<lambda>d. z_of d = k) (insertion_step xs op)"
proof (cases op)
  case (Add d)
  then show ?thesis
    using assms by (simp add: add_item_def sort_key_stable)
next
  case (Remove d)
  have sets: "set (items m) = set xs"
    using assms by (rule same_classes_same_set)
  show ?thesis
  proof (cases "d \<in> set (items m)")
    case True
    then show ?thesis
      using Remove assms by (simp add: remove_item_def filter_remove1)
  next
    case False
    then have "remove1 d xs = xs"
      using sets by (simp add: remove1_idem)
    then show ?thesis
      using Remove False assms by (simp add: remove_item_def)
  qed
next
  case Clear
  then show ?thesis by (simp add: clear_items_def)
qed

lemma foldl_apply_op_stable:
  assumes "\<forall>k. filter (\<lambda>d. z_of d = k) (items m) = filter (\<lambda>d. z_of d = k) xs"
  shows "filter (\<lambda>d. z_of d = k) (items (foldl apply_op m ops)) =
         filter (\<lambda>d. z_of d = k) (foldl insertion_step xs ops)"
  using assms
proof (induction ops arbitrary: m xs)
  case Nil
  then show ?case by simp
next
  case (Cons op ops)
  have "\<forall>k. filter (\<lambda>d. z_of d = k) (items (apply_op m op)) =
             filter (\<lambda>d. z_of d = k) (insertion_step xs op)"
    using Cons.prems by (simp add: apply_op_stable)
  from Cons.IH [OF this] show ?case by simp
qed

lemma run_ops_stable:
  "filter (\<lambda>d. z_of d = k) (items (run_ops ops)) =
   filter (\<lambda>d. z_of d = k) (insertion_order ops)"
  unfolding run_ops_def insertion_order_def
  by (rule foldl_apply_op_stable) (simp add: SceneManager_init_def)

lemma three_items:
  assumes "z_of a = 3" and "z_of b = 1" and "z_of c = 2"
  shows "get_items (run_ops [Add a, Add b, Add c]) = [b, c, a]"
  using assms by (simp add: get_items_def run_ops_def add_item_def SceneManager_init_def)

lemma two_equal_items:
  assumes "z_of a = z_of b"
  shows "get_items (run_ops [Add a, Add b]) = [a, b]"
  using assms by (simp add: get_items_def run_ops_def add_item_def SceneManager_init_def)

text \<open>
  Claim C8: after any sequence of \<^verbatim>\<open>add_item\<close>, \<^verbatim>\<open>remove_item\<close> and
  \<^verbatim>\<open>clear_items\<close> calls, the list returned by \<^verbatim>\<open>get_items\<close> is sorted
  ascending by z-index, and for each z-index the items having it appear in the order
  of their insertion. Adding items with z-indices 3, 1, 2 yields the order 1, 2, 3, and
  two added items of equal z-index keep the order in which they were added.
\<close>

theorem get_items_sorted_stable:
  "sorted (map z_of (get_items (run_ops ops))) \<and>
   (\<forall>k. filter (\<lambda>d. z_of d = k) (get_items (run_ops ops)) =
        filter (\<lambda>d. z_of d = k) (insertion_order ops)) \<and>
   (\<forall>a b c. z_of a = 3 \<and> z_of b = 1 \<and> z_of c = 2 \<longrightarrow>
      get_items (run_ops [Add a, Add b, Add c]) = [b, c, a]) \<and>
   (\<forall>a b. z_of a = z_of b \<longrightarrow> get_items (run_ops [Add a, Add b]) = [a, b])"
  using run_ops_sorted [of ops] run_ops_stable [of _ ops] three_items two_equal_items
  by (simp add: get_items_run_ops)

theorem get_items_sorted_stable_witness:
  "z_of (box 0 3) = 3 \<and> z_of (box 1 1) = 1 \<and> z_of (box 2 2) = 2 \<and>
   get_items (run_ops [Add (box 0 3), Add (box 1 1), Add (box 2 2)]) =
     [box 1 1, box 2 2, box 0 3] \<and>
   z_of (box 3 1) = z_of (box 4 1) \<and>
   get_items (run_ops [Add (box 3 1), Add (box 4 1)]) = [box 3 1, box 4 1]"
proof -
  have z: "z_of (box 0 3) = 3" "z_of (box 1 1) = 1" "z_of (box 2 2) = 2"
    "z_of (box 3 1) = z_of (box 4 1)"
    by (simp_all add: z_of_def box_def)
  show ?thesis
    using z get_items_sorted_stable [of "[]"] by blast
qed

section \<open>Hit testing\<close>

text \<open>
  When \<^verbatim>\<open>contains_point\<close> raises on no visible unlocked item of the list, the loop
  returns the first item of the list that answers the hit test.
\<close>

lemma item_at_loop_find:
  assumes "\<forall>d \<in> set ds. visible (common d) \<and> \<not> locked (common d) \<longrightarrow>
             (\<exists>r. contains_point d p = Inr r)"
  shows "item_at_loop ds p = Inr (List.find (hit p) ds)"
  using assms
proof (induction ds)
  case Nil
  then show ?case by simp
next
  case (Cons d ds)
  then have rest: "item_at_loop ds p = Inr (List.find (hit p) ds)"
    by simp
  show ?case
  proof (cases "visible (common d) \<and> \<not> locked (common d)")
    case True
    then obtain r where "contains_point d p = Inr r"
      using Cons.prems by auto
    then show ?thesis
      using True rest by (simp add: hit_def [of p d])
  next
    case False
    then show ?thesis
      using rest by (auto simp add: hit_def [of p d])
  qed
qed

lemma find_rev_last:
  assumes "List.find P (rev xs) = Some d"
  shows "filter P xs \<noteq> [] \<and> last (filter P xs) = d"
  using assms by (induction xs rule: rev_induct) (simp_all split: if_splits)

lemma find_rev_top:
  assumes "sorted (map f xs)" and "List.find P (rev xs) = Some d"
  shows "\<forall>e \<in> set xs. P e \<longrightarrow> f e \<le> f d"
  using assms
proof (induction xs rule: rev_induct)
  case Nil
  then show ?case by simp
next
  case (snoc x xs)
  have sorted_xs: "sorted (map f xs)" and below: "\<forall>e \<in> set xs. f e \<le> f x"
    using snoc.prems(1) by (simp_all add: sorted_append)
  show ?case
  proof (cases "P x")
    case True
    then have "d = x"
      using snoc.prems(2) by simp
    then show ?thesis
      using below by simp
  next
    case False
    then have "List.find P (rev xs) = Some d"
      using snoc.prems(2) by simp
    then show ?thesis
      using snoc.IH sorted_xs False by simp
  qed
qed

lemma last_filter_conj:
  assumes "filter P xs \<noteq> []" and "Q (last (filter P xs))"
  shows "last (filter (\<lambda>e. P e \<and> Q e) xs) = last (filter P xs)"
  using assms
proof (induction xs rule: rev_induct)
  case Nil
  then show ?case by simp
next
  case (snoc x xs)
  then show ?case by (cases "P x") simp_all
qed

text \<open>
  Hit-test priority, for a registry built by its three methods and a point at which
  \<^verbatim>\<open>contains_point\<close> raises on no visible unlocked item: \<^verbatim>\<open>get_item_at_position\<close>
  returns none exactly when no item answers the hit test; otherwise it returns an item
  that answers it, no answering item has a higher z-index, and among the answering items
  of its z-index it is the one inserted last.
\<close>

lemma get_item_at_position_topmost:
  assumes "\<forall>d \<in> set (items (run_ops ops)). visible (common d) \<and> \<not> locked (common d) \<longrightarrow>
             (\<exists>r. contains_point d p = Inr r)"
  shows "(get_item_at_position (run_ops ops) p = Inr None \<and>
            (\<forall>d \<in> set (items (run_ops ops)). \<not> hit p d)) \<or>
         (\<exists>d. get_item_at_position (run_ops ops) p = Inr (Some d) \<and>
            d \<in> set (items (run_ops ops)) \<and> hit p d \<and>
            (\<forall>e \<in> set (items (run_ops ops)). hit p e \<longrightarrow> z_of e \<le> z_of d) \<and>
            d = last (filter (\<lambda>e. hit p e \<and> z_of e = z_of d) (insertion_order ops)))"
proof -
  let ?xs = "items (run_ops ops)"
  have loop: "get_item_at_position (run_ops ops) p = Inr (List.find (hit p) (rev ?xs))"
    unfolding get_item_at_position_def using assms by (intro item_at_loop_find) simp
  show ?thesis
  proof (cases "List.find (hit p) (rev ?xs)")
    case None
    then have "\<forall>d \<in> set ?xs. \<not> hit p d"
      by (auto simp add: find_None_iff)
    then show ?thesis
      using loop None by simp
  next
    case (Some d)
    have last: "filter (hit p) ?xs \<noteq> []" "last (filter (hit p) ?xs) = d"
      using find_rev_last [OF Some] by simp_all
    then have "d \<in> set (filter (hit p) ?xs)"
      using last_in_set by blast
    then have mem: "d \<in> set ?xs" "hit p d"
      by simp_all
    have top: "\<forall>e \<in> set ?xs. hit p e \<longrightarrow> z_of e \<le> z_of d"
      using find_rev_top [OF run_ops_sorted Some] .
    have "last (filter (\<lambda>e. hit p e \<and> z_of e = z_of d) ?xs) = d"
      using last_filter_conj [of "hit p" ?xs "\<lambda>e. z_of e = z_of d"] last by simp
    moreover have "filter (\<lambda>e. hit p e \<and> z_of e = z_of d) ?xs =
        filter (hit p) (filter (\<lambda>e. z_of e = z_of d) ?xs)"
      by (simp add: conj_commute)
    moreover have "filter (\<lambda>e. hit p e \<and> z_of e = z_of d) (insertion_order ops) =
        filter (hit p) (filter (\<lambda>e. z_of e = z_of d) (insertion_order ops))"
      by (simp add: conj_commute)
    ultimately have tie:
      "d = last (filter (\<lambda>e. hit p e \<and> z_of e = z_of d) (insertion_order ops))"
      using run_ops_stable [of "z_of d" ops] by simp
    have result: "get_item_at_position (run_ops ops) p = Inr (Some d)"
      using loop Some by simp
    show ?thesis
      by (intro disjI2 exI [of _ d] conjI) (rule result mem top tie)+
  qed
qed

text \<open>The spec's scenario on the scene of \<open>demo_rect\<close> and \<open>demo_ellipse\<close>.\<close>

lemma demo_items:
  "items (run_ops [Add demo_rect, Add demo_ellipse]) = [demo_rect, demo_ellipse]"
  by (simp add: run_ops_def add_item_def SceneManager_init_def z_of_def demo_rect_def
      demo_ellipse_def)

lemma spec_scenario:
  "get_item_at_position (run_ops [Add demo_rect, Add demo_ellipse]) (400, 200) =
     Inr (Some demo_ellipse)"
  "get_item_at_position (run_ops [Add demo_rect, Add demo_ellipse]) (150, 150) =
     Inr (Some demo_rect)"
  "get_item_at_position (run_ops [Add demo_rect, Add demo_ellipse]) (0, 0) = Inr None"
  "screen_to_scene fresh_view (200, 150) = Inr (0, 0)"
  by (simp_all add: get_item_at_position_def demo_items)
     (simp_all add: demo_rect_def demo_ellipse_def Let_def fresh_view_def SceneView_init_def
        screen_to_scene_def screen_to_scene_with_zoom_def)

text \<open>
  Claim C3: on the scene holding only the visible, unlocked ellipse at (0,0) with width 0
  and height 50, no item contains the point (0,0), and \<^verbatim>\<open>get_item_at_position\<close>
  raises \<^verbatim>\<open>ZeroDivisionError\<close> there instead of returning none.
\<close>

theorem get_item_at_position_flat_ellipse_raises:
  "get_item_at_position (run_ops [Add flat_ellipse]) (0, 0) = Inl ZeroDivisionError"
  by (simp add: flat_ellipse_def Let_def run_ops_def get_item_at_position_def add_item_def
      SceneManager_init_def)

section \<open>Click dispatch\<close>

lemma clicked_loop_item_at_loop: "clicked_loop ds p = item_at_loop ds p"
  by (induction ds) (simp_all split: sum.split)

lemma get_items_sorted_items:
  "sorted (map z_of (items m)) \<Longrightarrow> get_items m = items m"
  unfolding get_items_def by (rule sort_key_id_if_sorted)

text \<open>
  While the stored list is sorted by z-index, as it is after any sequence of
  \<^verbatim>\<open>add_item\<close>, \<^verbatim>\<open>remove_item\<close> and \<^verbatim>\<open>clear_items\<close> calls, the inline
  search of \<^verbatim>\<open>mousePressEvent\<close> and \<^verbatim>\<open>get_item_at_position\<close> agree.
\<close>

lemma mousePressEvent_dispatch_sorted:
  assumes "sorted (map z_of (items (scene v)))"
    and "\<not> (button = MiddleButton \<or> (button = LeftButton \<and> alt))"
    and "screen_to_scene v S = Inr sp"
  shows "clicked_loop (rev (get_items (scene v))) sp = get_item_at_position (scene v) sp"
    and "clicked_log (fst (mousePressEvent v button S alt)) =
             clicked_log v @
               (case get_item_at_position (scene v) sp of
                  Inl e \<Rightarrow> []
                | Inr None \<Rightarrow> []
                | Inr (Some d) \<Rightarrow> [(d, sp)])"
proof -
  show loops: "clicked_loop (rev (get_items (scene v))) sp = get_item_at_position (scene v) sp"
    using assms(1)
    by (simp add: get_item_at_position_def get_items_sorted_items clicked_loop_item_at_loop)
  show "clicked_log (fst (mousePressEvent v button S alt)) =
      clicked_log v @
        (case get_item_at_position (scene v) sp of
           Inl e \<Rightarrow> []
         | Inr None \<Rightarrow> []
         | Inr (Some d) \<Rightarrow> [(d, sp)])"
    using assms(2,3) loops
    by (simp add: mousePressEvent_def Let_def split: sum.split option.split)
qed

lemma restacked_items: "items restacked = [box 1 5, box 2 1]"
  by (simp add: restacked_def assign_z_index_def run_ops_def add_item_def SceneManager_init_def
      z_of_def box_def)

lemma restacked_get_items: "get_items restacked = [box 2 1, box 1 5]"
  by (simp add: get_items_def restacked_items) (simp add: z_of_def box_def)

text \<open>
  Claim C9: on the registry of two overlapping rectangles added with z-indices 0 and 1,
  the first then given z-index 5 by assignment, a left press at screen point (250,200),
  whose scene point is (50,50), calls \<^verbatim>\<open>on_clicked\<close> on the first rectangle (now
  topmost), while \<^verbatim>\<open>get_item_at_position\<close> at (50,50) returns the second: the
  query walks the stored list, which no method has sorted again, and the press walks
  the newly sorted result of \<^verbatim>\<open>get_items\<close>.
\<close>

theorem mousePressEvent_dispatch_stale_order:
  "items restacked = [box 1 5, box 2 1] \<and>
   screen_to_scene restacked_view (250, 200) = Inr (50, 50) \<and>
   clicked_log (fst (mousePressEvent restacked_view LeftButton (250, 200) False)) =
     [(box 1 5, (50, 50))] \<and>
   get_item_at_position (scene restacked_view) (50, 50) = Inr (Some (box 2 1))"
proof -
  have p: "screen_to_scene restacked_view (250, 200) = Inr (50, 50)"
    by (simp add: restacked_view_def SceneView_init_def screen_to_scene_def
        screen_to_scene_with_zoom_def)
  have c: "clicked_loop (rev (get_items (scene restacked_view))) (50, 50) = Inr (Some (box 1 5))"
    by (simp add: restacked_view_def SceneView_init_def restacked_get_items) (simp add: box_def)
  have l: "clicked_log (fst (mousePressEvent restacked_view LeftButton (250, 200) False)) =
     [(box 1 5, (50, 50))]"
    using p c by (simp add: mousePressEvent_def Let_def) (simp add: restacked_view_def SceneView_init_def)
  have q: "get_item_at_position (scene restacked_view) (50, 50) = Inr (Some (box 2 1))"
    by (simp add: restacked_view_def SceneView_init_def get_item_at_position_def restacked_items)
       (simp add: box_def)
  show ?thesis
    using restacked_items p l q by simp
qed

section \<open>Status emission\<close>

text \<open>
  \<^verbatim>\<open>_emit_status\<close> appends one snapshot when it completes. \<^verbatim>\<open>wheelEvent\<close> never
  calls it (nor \<^verbatim>\<open>update()\<close>), whereas \<^verbatim>\<open>keyPressEvent\<close> does after the same
  zoom step.
\<close>

lemma emit_status_one:
  assumes "snd (emit_status v) = None"
  shows "\<exists>s. status_log (fst (emit_status v)) = status_log v @ [s]"
  using assms by (auto simp add: emit_status_def split: sum.splits)

lemma wheelEvent_status_log:
  "status_log (fst (wheelEvent v p d)) = status_log v"
  "update_count (fst (wheelEvent v p d)) = update_count v"
  by (simp_all add: wheelEvent_def zoom_to_cursor_def Let_def split: sum.split)

lemma keyPressEvent_plus_emits:
  "status_log (fst (keyPressEvent fresh_view Key_Plus)) =
     [\<lparr>screen_pos = (0, 0), scene_pos = (- 160, - 120), color = (100, 100, 100, 255),
       status_zoom = 1.25\<rparr>]"
  by (simp add: keyPressEvent_def key_action_def zoom_anchor_def zoom_to_cursor_def
      screen_to_scene_def screen_to_scene_with_zoom_def emit_status_def get_items_def
      fresh_view_def SceneView_init_def SceneManager_init_def min_zoom_def max_zoom_def Let_def)

text \<open>
  Claim C4: a wheel event with a positive angle delta at screen point (300,200), on a
  fresh view of 400 by 300 pixels at zoom 1, changes the zoom to 1.25 and the camera
  position to (20,10), and emits no status snapshot.
\<close>

theorem wheelEvent_emits_no_status:
  "zoom fresh_view = 1 \<and>
   wheelEvent fresh_view (300, 200) 120 =
     (fresh_view\<lparr>zoom := 1.25, position := (20, 10)\<rparr>, None) \<and>
   status_log (fst (wheelEvent fresh_view (300, 200) 120)) = []"
  by (simp add: wheelEvent_def zoom_to_cursor_def screen_to_scene_def
      screen_to_scene_with_zoom_def fresh_view_def SceneView_init_def min_zoom_def
      max_zoom_def Let_def)

section \<open>End of a pan\<close>

text \<open>
  Releasing the middle button ends a pan and never raises; any release in a view that
  is not panning changes nothing and does not raise.
\<close>

lemma mouseReleaseEvent_middle:
  "mouseReleaseEvent v MiddleButton alt =
     (v\<lparr>is_panning := False, pan_start_pos := (0, 0), camera_start_pos := (0, 0)\<rparr>, None)"
  by (simp add: mouseReleaseEvent_def release_condition_def)

lemma mouseReleaseEvent_idle:
  assumes "\<not> is_panning v"
  shows "snd (mouseReleaseEvent v button alt) = None"
    and "\<not> is_panning (fst (mouseReleaseEvent v button alt))"
  using assms by (simp_all add: mouseReleaseEvent_def release_condition_def)

text \<open>Releasing the left button while panning always raises and leaves the pan on.\<close>

lemma mouseReleaseEvent_left_panning:
  assumes "is_panning v"
  shows "mouseReleaseEvent v LeftButton alt = (v, Some (NameError ''QApplication''))"
  using assms
  by (simp add: mouseReleaseEvent_def release_condition_def global_name_def module_globals_def)

text \<open>
  Claim C5: on a fresh view, a press of the left button with Alt held at (10,10) starts
  a pan. The release of the left button that follows, Alt still held, raises
  \<^verbatim>\<open>NameError\<close> for \<^verbatim>\<open>QApplication\<close> and leaves the view panning.
\<close>

theorem mouseReleaseEvent_left_pan_raises:
  "mousePressEvent fresh_view LeftButton (10, 10) True =
     (fresh_view\<lparr>pan_start_pos := (10, 10), is_panning := True, last_mouse_pos := (10, 10)\<rparr>,
      None) \<and>
   mouseReleaseEvent (fst (mousePressEvent fresh_view LeftButton (10, 10) True)) LeftButton True =
     (fresh_view\<lparr>pan_start_pos := (10, 10), is_panning := True, last_mouse_pos := (10, 10)\<rparr>,
      Some (NameError ''QApplication''))"
  by (simp add: mouseReleaseEvent_def mousePressEvent_def release_condition_def
      global_name_def module_globals_def fresh_view_def SceneView_init_def Let_def)

end
